theory Spec2Isabelle
  imports Complex_Main "HOL-Library.Sublist"
begin

section \<open>Python strings\<close>

text \<open>
  A Python \<open>str\<close> is modelled as a \<^typ>\<open>string\<close>, one \<^typ>\<open>char\<close> per code point;
  the model covers the code points below 256. The functions of this section are the
  \<open>str\<close> methods and operators that \<open>nodes.py\<close> calls, named after them.
\<close>

text \<open>\<open>s.startswith(p)\<close>\<close>

fun str_startswith :: "string \<Rightarrow> string \<Rightarrow> bool" where
  "str_startswith s [] = True"
| "str_startswith [] (p # ps) = False"
| "str_startswith (c # cs) (p # ps) = (c = p \<and> str_startswith cs ps)"

text \<open>\<open>s.endswith(p)\<close>\<close>

definition str_endswith :: "string \<Rightarrow> string \<Rightarrow> bool" where
  "str_endswith s p = str_startswith (rev s) (rev p)"

text \<open>\<open>sub in s\<close>\<close>

fun str_contains :: "string \<Rightarrow> string \<Rightarrow> bool" where
  "str_contains [] sub = (sub = [])"
| "str_contains (c # cs) sub = (str_startswith (c # cs) sub \<or> str_contains cs sub)"

text \<open>
  The characters that \<open>str.strip()\<close> removes: the code points below 256 for which
  \<open>str.isspace()\<close> holds (tab to carriage return, the four separators 0x1C to 0x1F, space,
  0x85 and 0xA0).
\<close>

definition is_space :: "char \<Rightarrow> bool" where
  "is_space c =
     (let n = (of_char c :: nat)
      in (9 \<le> n \<and> n \<le> 13) \<or> (28 \<le> n \<and> n \<le> 32) \<or> n = 133 \<or> n = 160)"

text \<open>\<open>s.strip()\<close>\<close>

definition str_strip :: "string \<Rightarrow> string" where
  "str_strip s = rev (dropWhile is_space (rev (dropWhile is_space s)))"

text \<open>
  \<open>s.lower()\<close> on code points below 256: the letters A to Z and the Latin-1 capitals
  0xC0 to 0xDE (without the multiplication sign 0xD7) move up by 32.
\<close>

definition chr_lower :: "char \<Rightarrow> char" where
  "chr_lower c =
     (let n = (of_char c :: nat)
      in if (65 \<le> n \<and> n \<le> 90) \<or> (192 \<le> n \<and> n \<le> 222 \<and> n \<noteq> 215)
         then char_of (n + 32) else c)"

definition str_lower :: "string \<Rightarrow> string" where
  "str_lower s = map chr_lower s"

text \<open>
  \<open>s.replace(old, new)\<close>: the occurrences of \<open>old\<close> are replaced from left to right,
  without overlap. With an empty \<open>old\<close>, Python puts \<open>new\<close> before every character and
  at the end.
\<close>

function str_replace :: "string \<Rightarrow> string \<Rightarrow> string \<Rightarrow> string" where
  "str_replace [] old new = (if old = [] then new else [])"
| "str_replace (c # cs) old new =
     (if old = [] then new @ c # str_replace cs old new
      else if str_startswith (c # cs) old
      then new @ str_replace (drop (length old) (c # cs)) old new
      else c # str_replace cs old new)"
  by pat_completeness auto
termination
  by (relation "measure (\<lambda>(s, old, new). length s)") auto

text \<open>
  \<open>s.split(sep)\<close> for a non-empty separator: the pieces between the occurrences of
  \<open>sep\<close>, found from left to right without overlap. \<open>split_from cur s\<close> has read \<open>cur\<close>
  of the current piece. Python raises on an empty separator; every separator in
  \<open>nodes.py\<close> is a non-empty literal, and the model returns the whole string there.
\<close>

function split_from :: "string \<Rightarrow> string \<Rightarrow> string \<Rightarrow> string list" where
  "split_from cur [] sep = [cur]"
| "split_from cur (c # cs) sep =
     (if sep \<noteq> [] \<and> str_startswith (c # cs) sep
      then cur # split_from [] (drop (length sep) (c # cs)) sep
      else split_from (cur @ [c]) cs sep)"
  by pat_completeness auto
termination
  by (relation "measure (\<lambda>(cur, s, sep). length s)") auto

definition str_split :: "string \<Rightarrow> string \<Rightarrow> string list" where
  "str_split s sep = split_from [] s sep"

text \<open>\<open>sep.join(xs)\<close>\<close>

fun str_join :: "string \<Rightarrow> string list \<Rightarrow> string" where
  "str_join sep [] = []"
| "str_join sep [x] = x"
| "str_join sep (x # y # ys) = x @ sep @ str_join sep (y # ys)"

section \<open>Errors\<close>

text \<open>
  The exceptions that can leave \<open>nodes.py\<close>. \<open>ValueError\<close> carries its message; it is
  what the specification calls \<open>InvalidInputError\<close>. \<open>IndexError\<close> is Python's error for a
  list index out of range. \<open>DownloadException\<close> is the \<open>Exception\<close> that \<open>download_file\<close>
  raises with the status code of the response (the specification's \<open>DownloadError\<close>).
  \<open>OSError\<close> stands for the errors of the filesystem calls (the specification's
  \<open>FilesystemError\<close>), \<open>ExternalError\<close> for whatever a collaborator outside the
  repository raises.
\<close>

datatype error =
    ValueError string
  | IndexError
  | DownloadException nat
  | OSError
  | ExternalError string

section \<open>The world outside the program\<close>

text \<open>
  The program reads and writes the filesystem, reads the environment and talks to HTTP
  servers. The filesystem is the set of existing directories and the map from the paths of
  regular files to their contents; \<open>server\<close> is what a GET of a URL would answer;
  \<open>requests_log\<close> records the GET requests issued, the newest first.
\<close>

datatype response = Response (status_code: nat) (content: string)

record world =
  cwd :: string
  dirs :: "string set"
  files :: "string \<rightharpoonup> string"
  environ :: "string \<rightharpoonup> string"
  server :: "string \<Rightarrow> error + response"
  requests_log :: "string list"

text \<open>\<open>os.path.exists(p)\<close>\<close>

definition os_path_exists :: "string \<Rightarrow> world \<Rightarrow> bool" where
  "os_path_exists p w = (p \<in> dirs w \<or> files w p \<noteq> None)"

text \<open>\<open>os.path.join(a, b)\<close> (POSIX)\<close>

definition os_path_join :: "string \<Rightarrow> string \<Rightarrow> string" where
  "os_path_join a b =
     (if str_startswith b ''/'' then b
      else if a = [] \<or> str_endswith a ''/'' then a @ b
      else a @ ''/'' @ b)"

text \<open>
  \<open>os.path.dirname(p)\<close> (POSIX): the part up to the last slash, without trailing slashes
  unless it consists of slashes only.
\<close>

definition os_path_dirname :: "string \<Rightarrow> string" where
  "os_path_dirname p =
     (let head = rev (dropWhile (\<lambda>c. c \<noteq> CHR ''/'') (rev p))
      in if list_all (\<lambda>c. c = CHR ''/'') head then head
         else rev (dropWhile (\<lambda>c. c = CHR ''/'') (rev head)))"

text \<open>
  \<open>os.mkdir(p)\<close>: fails when the path exists or when its parent is not a directory
  (a relative path without a slash has the working directory as its parent).
\<close>

definition os_mkdir :: "string \<Rightarrow> world \<Rightarrow> error + world" where
  "os_mkdir p w =
     (if os_path_exists p w then Inl OSError
      else if os_path_dirname p \<noteq> [] \<and> os_path_dirname p \<notin> dirs w then Inl OSError
      else Inr (w\<lparr>dirs := insert p (dirs w)\<rparr>))"

text \<open>
  The directories that \<open>os.makedirs(p)\<close> needs: the path itself and every part of it that
  ends before a slash. \<open>dir_chain pre s\<close> has read \<open>pre\<close>.
\<close>

fun dir_chain :: "string \<Rightarrow> string \<Rightarrow> string list" where
  "dir_chain pre [] = [pre]"
| "dir_chain pre (c # cs) =
     (if c = CHR ''/'' \<and> pre \<noteq> [] \<and> last pre \<noteq> CHR ''/''
      then pre # dir_chain (pre @ [c]) cs
      else dir_chain (pre @ [c]) cs)"

text \<open>
  \<open>os.makedirs(p, exist_ok=True)\<close>: creates the directory and the missing ones above it;
  fails on the empty path and when one of them is a regular file. It creates directories
  only.
\<close>

definition os_makedirs :: "string \<Rightarrow> world \<Rightarrow> error + world" where
  "os_makedirs p w =
     (if p = [] then Inl OSError
      else if list_ex (\<lambda>d. files w d \<noteq> None) (dir_chain [] p) then Inl OSError
      else Inr (w\<lparr>dirs := dirs w \<union> set (dir_chain [] p)\<rparr>))"

text \<open>
  \<open>with open(p, 'wb') as file: file.write(data)\<close>: fails when the path is a directory or
  its parent is not one; otherwise the file holds exactly \<open>data\<close> afterwards.
\<close>

definition write_file :: "string \<Rightarrow> string \<Rightarrow> world \<Rightarrow> error + world" where
  "write_file p data w =
     (if p \<in> dirs w then Inl OSError
      else if os_path_dirname p \<noteq> [] \<and> os_path_dirname p \<notin> dirs w then Inl OSError
      else Inr (w\<lparr>files := (files w)(p \<mapsto> data)\<rparr>))"

text \<open>
  \<open>requests.get(url, allow_redirects=True)\<close>: the request is issued, and the server's
  answer (or the error of the HTTP client) comes back.
\<close>

definition requests_get :: "string \<Rightarrow> world \<Rightarrow> (error + response) \<times> world" where
  "requests_get url w = (server w url, w\<lparr>requests_log := url # requests_log w\<rparr>)"

section \<open>\<open>nodes.py\<close>\<close>

subsection \<open>\<open>download_file\<close>\<close>

definition download_file :: "string \<Rightarrow> string \<Rightarrow> world \<Rightarrow> (error + unit) \<times> world" where
  "download_file url filename w =
     (case os_makedirs (os_path_dirname filename) w of
        Inl e \<Rightarrow> (Inl e, w)
      | Inr w1 \<Rightarrow>
          (case requests_get url w1 of
             (Inl e, w2) \<Rightarrow> (Inl e, w2)
           | (Inr r, w2) \<Rightarrow>
               if status_code r = 200
               then (case write_file filename (content r) w2 of
                       Inl e \<Rightarrow> (Inl e, w2)
                     | Inr w3 \<Rightarrow> (Inr (), w3))
               else (Inl (DownloadException (status_code r)), w2)))"

subsection \<open>\<open>get_filename_from_url\<close>\<close>

text \<open>
  \<open>hashlib.md5(url.encode()).hexdigest()\<close> belongs to Python's library; it enters as the
  parameter \<open>md5_hexdigest\<close>, a function from the string to its digest in hexadecimal.
\<close>

definition get_filename_from_url :: "(string \<Rightarrow> string) \<Rightarrow> string \<Rightarrow> string \<Rightarrow> string" where
  "get_filename_from_url md5_hexdigest url extension =
     md5_hexdigest url @ ''.'' @ extension"

subsection \<open>\<open>find_or_create_cache\<close>\<close>

definition find_or_create_cache :: "world \<Rightarrow> (error + string) \<times> world" where
  "find_or_create_cache w =
     (let d0 = cwd w;
          d1 = (if os_path_exists (os_path_join d0 ''ComfyUI'') w
                then os_path_join d0 ''ComfyUI'' else d0);
          d2 = (if os_path_exists (os_path_join d1 ''models'') w
                then os_path_join d1 ''models'' else d1);
          cache = os_path_join d2 ''huggingface_cache''
      in if \<not> os_path_exists cache w
         then (case os_mkdir cache w of
                 Inl e \<Rightarrow> (Inl e, w)
               | Inr w1 \<Rightarrow> (Inr cache, w1))
         else (Inr cache, w))"

subsection \<open>\<open>get_lora_from_url\<close>\<close>

text \<open>\<open>xs[i]\<close> for an index \<open>i \<ge> 0\<close>: \<open>IndexError\<close> when the list is too short.\<close>

definition list_index :: "'a list \<Rightarrow> nat \<Rightarrow> error + 'a" where
  "list_index xs i = (if i < length xs then Inr (xs ! i) else Inl IndexError)"

text \<open>The arguments of a call of \<open>hf_hub_download\<close>.\<close>

record hub_request =
  repo_id :: string
  subfolder :: "string option"
  filename :: string
  cache_dir :: string

text \<open>
  The branch for \<open>huggingface.co\<close>, up to the call of \<open>hf_hub_download\<close>: the download
  flag is cut off, \<open>/blob/\<close> becomes \<open>/resolve/\<close>, the ending is checked, and the URL without
  its scheme is split at the slashes into \<open>parts\<close>. The result is \<open>repo_id\<close>, \<open>subfolder\<close>
  and \<open>filename\<close> as the source's variables hold them before the call.
\<close>

definition hf_parse :: "string \<Rightarrow> error + (string \<times> string option \<times> string)" where
  "hf_parse url0 =
     (let url1 = (if str_endswith url0 ''?download=true''
                  then take (length url0 - length ''?download=true'') url0 else url0);
          url2 = (if str_contains url1 ''/blob/''
                  then str_replace url1 ''/blob/'' ''/resolve/'' else url1)
      in if \<not> str_endswith (str_lower url2) ''safetensors''
         then Inl (ValueError ''Only safetensors files are supported.'')
         else
           (let parser_string = str_replace (str_replace url2 ''http://'' []) ''https://'' [];
                parts = str_split parser_string ''/''
            in case list_index parts 1 of
                 Inl e \<Rightarrow> Inl e
               | Inr p1 \<Rightarrow>
                   (case list_index parts 2 of
                      Inl e \<Rightarrow> Inl e
                    | Inr p2 \<Rightarrow>
                        (let repo = p1 @ ''/'' @ p2;
                             fname = last parts;
                             subfolder_length = int (length parts) - 6;
                             sub = (if subfolder_length > 0
                                    then Some (str_join ''/'' (drop 5 (butlast parts)))
                                    else None)
                         in Inr (repo, sub, fname)))))"

text \<open>
  The repair of a \<open>civitai.com\<close> URL: when the URL contains \<open>modelVersionId\<close>, the text
  after the first \<open>modelVersionId=\<close> up to the next \<open>&\<close> becomes the id of the canonical
  download URL.
\<close>

definition civitai_download_url :: "string \<Rightarrow> string" where
  "civitai_download_url model_version_id =
     ''https://civitai.com/api/download/models/'' @ model_version_id
       @ ''?type=Model&format=SafeTensor''"

definition civitai_fix_url :: "string \<Rightarrow> error + string" where
  "civitai_fix_url url =
     (if str_contains url ''modelVersionId''
      then (case list_index (str_split url ''modelVersionId='') 1 of
              Inl e \<Rightarrow> Inl e
            | Inr model_version_id \<Rightarrow>
                Inr (civitai_download_url (hd (str_split model_version_id ''&''))))
      else Inr url)"

text \<open>The API key is added to the URL when the environment has a non-blank one.\<close>

definition add_api_key :: "string \<Rightarrow> world \<Rightarrow> string" where
  "add_api_key url w =
     (case environ w ''CIVITAI_API_KEY'' of
        None \<Rightarrow> url
      | Some api_key \<Rightarrow>
          if str_strip api_key \<noteq> [] then url @ ''&token='' @ api_key else url)"

text \<open>
  The end of the two branches that download by themselves: the file is fetched unless
  something exists at \<open>lora_path\<close>.
\<close>

definition fetch_if_absent :: "string \<Rightarrow> string \<Rightarrow> world \<Rightarrow> (error + string) \<times> world" where
  "fetch_if_absent url lora_path w =
     (if \<not> os_path_exists lora_path w
      then (case download_file url lora_path w of
              (Inl e, w1) \<Rightarrow> (Inl e, w1)
            | (Inr u, w1) \<Rightarrow> (Inr lora_path, w1))
      else (Inr lora_path, w))"

text \<open>
  \<open>hf_hub_download\<close> belongs to the \<open>huggingface_hub\<close> package; it enters as the parameter
  \<open>hf_hub_download\<close>, which takes the arguments of the call and the world and gives the
  local path or an error, and the world afterwards.
\<close>

definition get_lora_from_url ::
  "(string \<Rightarrow> string) \<Rightarrow> (hub_request \<Rightarrow> world \<Rightarrow> (error + string) \<times> world)
     \<Rightarrow> string \<Rightarrow> world \<Rightarrow> (error + string) \<times> world" where
  "get_lora_from_url md5_hexdigest hf_hub_download url0 w =
     (let url = str_strip url0
      in if url = [] then (Inl (ValueError ''URL is empty''), w)
         else if \<not> str_startswith url ''http'' then (Inl (ValueError ''Invalid URL''), w)
         else if str_contains url ''huggingface.co'' then
           (case hf_parse url of
              Inl e \<Rightarrow> (Inl e, w)
            | Inr (repo, sub, fname) \<Rightarrow>
                (case find_or_create_cache w of
                   (Inl e, w1) \<Rightarrow> (Inl e, w1)
                 | (Inr cache, w1) \<Rightarrow>
                     hf_hub_download
                       \<lparr>repo_id = str_strip repo, subfolder = sub,
                        filename = str_strip fname, cache_dir = cache\<rparr> w1))
         else if str_contains url ''civitai.com'' then
           (case civitai_fix_url url of
              Inl e \<Rightarrow> (Inl e, w)
            | Inr url1 \<Rightarrow>
                if \<not> str_contains url1 ''SafeTensor''
                then (Inl (ValueError
                        ''Only safetensors files are supported for security reasons.''), w)
                else
                  (let save_filename = get_filename_from_url md5_hexdigest url1 ''safetensors'';
                       url2 = add_api_key url1 w
                   in case find_or_create_cache w of
                        (Inl e, w1) \<Rightarrow> (Inl e, w1)
                      | (Inr cache, w1) \<Rightarrow>
                          fetch_if_absent url2
                            (os_path_join (os_path_join cache ''civitai'') save_filename) w1))
         else
           (if \<not> str_endswith (hd (str_split (str_lower url) ''?'')) ''safetensors''
            then (Inl (ValueError
                    ''Only safetensors files are supported for security reasons.''), w)
            else
              (let save_filename = get_filename_from_url md5_hexdigest url ''safetensors''
               in case find_or_create_cache w of
                    (Inl e, w1) \<Rightarrow> (Inl e, w1)
                  | (Inr cache, w1) \<Rightarrow>
                      fetch_if_absent url
                        (os_path_join (os_path_join cache ''general'') save_filename) w1)))"

subsection \<open>\<open>LoadLoraModelOnlyWithUrl\<close>\<close>

text \<open>
  The fields of the node. \<open>strength_model\<close> is a Python float between -20 and 20 (the
  range the node declares); the model takes the real number it denotes, of which the code
  only asks whether it equals zero. \<open>comfy.utils.load_torch_file\<close> and
  \<open>comfy.sd.load_lora_for_models\<close> belong to the host and enter as parameters.
\<close>

record 'lora node =
  loaded_lora :: "'lora option"
  loaded_lora_path :: "string option"

definition load_lora_model_only_from_url ::
  "(string \<Rightarrow> string) \<Rightarrow> (hub_request \<Rightarrow> world \<Rightarrow> (error + string) \<times> world)
     \<Rightarrow> (string \<Rightarrow> world \<Rightarrow> error + 'lora)
     \<Rightarrow> ('model \<Rightarrow> 'lora \<Rightarrow> real \<Rightarrow> error + 'model)
     \<Rightarrow> 'lora node \<Rightarrow> 'model \<Rightarrow> string \<Rightarrow> real \<Rightarrow> world
     \<Rightarrow> (error + 'model) \<times> 'lora node \<times> world" where
  "load_lora_model_only_from_url md5_hexdigest hf_hub_download load_torch_file
       load_lora_for_models self model url strength_model w =
     (if strength_model = 0 then (Inr model, self, w)
      else
        (case get_lora_from_url md5_hexdigest hf_hub_download url w of
           (Inl e, w1) \<Rightarrow> (Inl e, self, w1)
         | (Inr lora_path, w1) \<Rightarrow>
             (let (lora, self1) =
                    (case loaded_lora self of
                       None \<Rightarrow> (None, self)
                     | Some l \<Rightarrow>
                         if loaded_lora_path self = Some lora_path then (Some l, self)
                         else (None, self\<lparr>loaded_lora := None, loaded_lora_path := None\<rparr>))
              in case lora of
                   Some l \<Rightarrow> (load_lora_for_models model l strength_model, self1, w1)
                 | None \<Rightarrow>
                     (case load_torch_file lora_path w1 of
                        Inl e \<Rightarrow> (Inl e, self1, w1)
                      | Inr l \<Rightarrow>
                          (load_lora_for_models model l strength_model,
                           self1\<lparr>loaded_lora := Some l, loaded_lora_path := Some lora_path\<rparr>,
                           w1)))))"

section \<open>Concrete inputs\<close>

text \<open>
  The inputs at which the theorems below are evaluated. \<open>example_digest\<close> stands in for the
  digest function and \<open>example_hub\<close> for \<open>hf_hub_download\<close>; the theorems themselves hold
  for every digest function and every download primitive. In \<open>example_world\<close> the program
  runs in \<open>/srv\<close> with nothing cached and no API key, and the server answers every GET
  with status 200; \<open>cached_world\<close> already holds the cache file of
  \<open>https://example.com/weights.safetensors\<close>; in \<open>refusing_world\<close> the server answers 404.
\<close>

definition example_digest :: "string \<Rightarrow> string" where
  "example_digest url = ''0123456789abcdef0123456789abcdef''"

definition example_hub :: "hub_request \<Rightarrow> world \<Rightarrow> (error + string) \<times> world" where
  "example_hub req w = (Inr (os_path_join (cache_dir req) (filename req)), w)"

definition example_world :: world where
  "example_world =
     \<lparr>cwd = ''/srv'', dirs = {''/srv''}, files = Map.empty, environ = Map.empty,
      server = (\<lambda>url. Inr (Response 200 ''weights'')), requests_log = []\<rparr>"

definition cached_world :: world where
  "cached_world =
     example_world
       \<lparr>dirs := {''/srv'', ''/srv/huggingface_cache'', ''/srv/huggingface_cache/general''},
        files := [''/srv/huggingface_cache/general/0123456789abcdef0123456789abcdef.safetensors''
                    \<mapsto> ''old weights'']\<rparr>"

definition refusing_world :: world where
  "refusing_world = example_world\<lparr>server := (\<lambda>url. Inr (Response 404 ''not found''))\<rparr>"

section \<open>Facts about the string functions\<close>

lemma str_startswith_prefix: "str_startswith s p = prefix p s"
  by (induction s p rule: str_startswith.induct) auto

lemma str_contains_sublist: "str_contains s sub = sublist sub s"
  by (induction s) (auto simp: str_startswith_prefix sublist_Cons_right)

lemma str_endswith_suffix: "str_endswith s p = suffix p s"
  by (simp add: str_endswith_def str_startswith_prefix suffix_to_prefix)

lemma split_from_not_Nil: "split_from cur s sep \<noteq> []"
  by (induction cur s sep rule: split_from.induct) auto

lemma split_from_at_sep:
  "sep \<noteq> [] \<Longrightarrow> split_from cur (sep @ rest) sep = cur # split_from [] rest sep"
  by (cases sep) (auto simp: str_startswith_prefix)

lemma split_from_no_sep:
  "\<not> sublist sep s \<Longrightarrow> split_from cur s sep = [cur @ s]"
proof (induction s arbitrary: cur)
  case Nil
  then show ?case by simp
next
  case (Cons c cs)
  then have "\<not> prefix sep (c # cs)" "\<not> sublist sep cs"
    by (auto simp: sublist_Cons_right)
  with Cons.IH [of "cur @ [c]"] show ?case
    by (simp add: str_startswith_prefix)
qed

lemma prefix_hd_prefix: 
  assumes "sep \<noteq> []" "hd sep \<notin> set (tl sep)" "a \<noteq> []" "\<not> prefix sep a"
  shows "\<not> prefix sep (a @ sep @ rest)"
proof
  assume "prefix sep (a @ sep @ rest)"
  with assms(4) obtain us where us: "sep = a @ us" "prefix us (sep @ rest)"
    using prefix_append [of sep a "sep @ rest"] by blast
  show False
  proof (cases us)
    case Nil
    with us assms(4) show False by simp
  next
    case (Cons u us')
    with us(2) assms(1) have "u = hd sep"
      by (cases sep) auto
    moreover from us(1) Cons assms(3) have "u \<in> set (tl sep)"
      by (cases a) auto
    ultimately show False using assms(2) by simp
  qed
qed

lemma split_from_first:
  assumes "sep \<noteq> []" "hd sep \<notin> set (tl sep)" "\<not> sublist sep pre"
  shows "split_from cur (pre @ sep @ rest) sep = (cur @ pre) # split_from [] rest sep"
  using assms(3)
proof (induction pre arbitrary: cur)
  case Nil
  with assms(1) show ?case by (simp add: split_from_at_sep)
next
  case (Cons p ps)
  then have np: "\<not> prefix sep (p # ps)" and ns: "\<not> sublist sep ps"
    by (auto simp: sublist_Cons_right)
  from prefix_hd_prefix [OF assms(1,2) _ np, of rest]
  have "\<not> prefix sep ((p # ps) @ sep @ rest)" by simp
  with Cons.IH [OF ns, of "cur @ [p]"] show ?case
    by (simp add: str_startswith_prefix)
qed


lemma split_from_skip:
  assumes "c \<notin> set sep" "\<not> sublist sep v"
  shows "split_from cur (v @ c # r) sep = split_from (cur @ v @ [c]) r sep"
  using assms(2)
proof (induction v arbitrary: cur)
  case Nil
  from assms(1) have "sep \<noteq> [] \<longrightarrow> \<not> prefix sep (c # r)"
    by (cases sep) auto
  then show ?case by (auto simp: str_startswith_prefix)
next
  case (Cons x xs)
  then have np: "\<not> prefix sep (x # xs)" and ns: "\<not> sublist sep xs"
    by (auto simp: sublist_Cons_right)
  have "\<not> prefix sep ((x # xs) @ c # r)"
  proof
    assume "prefix sep ((x # xs) @ c # r)"
    with np obtain us where us: "sep = (x # xs) @ us" "prefix us (c # r)"
      using prefix_append [of sep "x # xs" "c # r"] by blast
    with np have "us \<noteq> []" by auto
    with us(2) have "c \<in> set us" by (cases us) auto
    with us(1) assms(1) show False by simp
  qed
  with Cons.IH [OF ns, of "cur @ [x]"] show ?case
    by (simp add: str_startswith_prefix)
qed

lemma hd_split_from_prefix: "prefix cur (hd (split_from cur s sep))"
proof (induction cur s sep rule: split_from.induct)
  case (1 cur sep)
  then show ?case by simp
next
  case (2 cur c cs sep)
  show ?case
  proof (cases "sep \<noteq> [] \<and> str_startswith (c # cs) sep")
    case True
    then show ?thesis by simp
  next
    case False
    with 2(2) have "prefix (cur @ [c]) (hd (split_from cur (c # cs) sep))" by simp
    then show ?thesis by (rule append_prefixD)
  qed
qed

lemma hd_split_char:
  "c \<notin> set v \<Longrightarrow> hd (split_from cur (v @ c # r) [c]) = cur @ v"
  by (induction v arbitrary: cur) auto

lemma hd_split_char_end:
  "c \<notin> set v \<Longrightarrow> hd (split_from cur v [c]) = cur @ v"
  by (induction v arbitrary: cur) auto

lemma split_from_length:
  "sep \<noteq> [] \<Longrightarrow> sublist sep s \<Longrightarrow> 2 \<le> length (split_from cur s sep)"
proof (induction cur s sep rule: split_from.induct)
  case (1 cur sep)
  then show ?case by simp
next
  case (2 cur c cs sep)
  show ?case
  proof (cases "prefix sep (c # cs)")
    case True
    have "split_from [] (drop (length sep) (c # cs)) sep \<noteq> []"
      by (rule split_from_not_Nil)
    then have "1 \<le> length (split_from [] (drop (length sep) (c # cs)) sep)"
      by (cases "split_from [] (drop (length sep) (c # cs)) sep") simp_all
    moreover from True 2(3)
    have "split_from cur (c # cs) sep = cur # split_from [] (drop (length sep) (c # cs)) sep"
      by (simp add: str_startswith_prefix)
    ultimately show ?thesis by simp
  next
    case False
    with 2(4) have sub: "sublist sep cs" by (simp add: sublist_Cons_right)
    from False have "split_from cur (c # cs) sep = split_from (cur @ [c]) cs sep"
      by (simp add: str_startswith_prefix)
    moreover from False 2(2) 2(3) sub have "2 \<le> length (split_from (cur @ [c]) cs sep)"
      by (simp add: str_startswith_prefix)
    ultimately show ?thesis by simp
  qed
qed


lemma contains_version_id:
  "str_contains (pre @ ''modelVersionId='' @ rest) ''modelVersionId''"
proof -
  have "pre @ ''modelVersionId='' @ rest = pre @ ''modelVersionId'' @ (''='' @ rest)"
    by simp
  then show ?thesis
    unfolding str_contains_sublist by (metis sublist_appendI)
qed

section \<open>Facts about the filesystem and the fetch\<close>

lemma find_or_create_cache_frame:
  assumes "find_or_create_cache w = (r, w1)"
  shows "files w1 = files w" "requests_log w1 = requests_log w" "dirs w \<subseteq> dirs w1"
    "environ w1 = environ w" "server w1 = server w"
  using assms
  by (auto simp: find_or_create_cache_def Let_def os_mkdir_def split: if_splits sum.splits)

lemma find_or_create_cache_exists:
  "find_or_create_cache w = (r, w1) \<Longrightarrow> os_path_exists p w \<Longrightarrow> os_path_exists p w1"
  using find_or_create_cache_frame(1,3) [of w r w1] by (auto simp: os_path_exists_def)

lemma os_path_exists_environ [simp]:
  "os_path_exists p (w\<lparr>environ := e\<rparr>) = os_path_exists p w"
  by (simp add: os_path_exists_def)

lemma find_or_create_cache_environ:
  "find_or_create_cache (w\<lparr>environ := e\<rparr>)
     = (fst (find_or_create_cache w), snd (find_or_create_cache w)\<lparr>environ := e\<rparr>)"
  by (simp add: find_or_create_cache_def Let_def os_mkdir_def split: sum.splits)

lemma fetch_if_absent_path:
  "fetch_if_absent url p w = (Inr q, w') \<Longrightarrow> q = p"
  by (auto simp: fetch_if_absent_def split: if_splits prod.splits sum.splits)

lemma fetch_if_absent_hit:
  "os_path_exists p w \<Longrightarrow> fetch_if_absent url p w = (Inr p, w)"
  by (simp add: fetch_if_absent_def)

lemma download_fresh:
  assumes "os_makedirs (os_path_dirname p) w = Inr w1"
    and "server w url = Inr (Response 200 body)"
    and "p \<notin> dirs w1" and "os_path_dirname p \<in> dirs w1"
  shows "download_file url p w
           = (Inr (), w1\<lparr>files := (files w)(p \<mapsto> body), requests_log := url # requests_log w\<rparr>)"
proof -
  from assms(1) have w1: "server w1 = server w" "requests_log w1 = requests_log w"
      "files w1 = files w"
    by (auto simp: os_makedirs_def split: if_splits)
  with assms show ?thesis
    by (simp add: download_file_def requests_get_def write_file_def)
qed

lemma fetch_fresh:
  assumes "\<not> os_path_exists p w"
    and "os_makedirs (os_path_dirname p) w = Inr w1"
    and "server w url = Inr (Response 200 body)"
    and "p \<notin> dirs w1" and "os_path_dirname p \<in> dirs w1"
  shows "fetch_if_absent url p w
           = (Inr p, w1\<lparr>files := (files w)(p \<mapsto> body), requests_log := url # requests_log w\<rparr>)"
  using assms(1) download_fresh [OF assms(2-5)] by (simp add: fetch_if_absent_def)

lemma get_lora_path_shape:
  assumes "fst (get_lora_from_url md5 hub url0 w) = Inr p"
    and "\<not> str_contains (str_strip url0) ''huggingface.co''"
  shows "\<exists>u sub. p = os_path_join (os_path_join (projr (fst (find_or_create_cache w))) sub)
                    (get_filename_from_url md5 u ''safetensors'')
           \<and> (if str_contains (str_strip url0) ''civitai.com''
               then civitai_fix_url (str_strip url0) = Inr u \<and> sub = ''civitai''
               else u = str_strip url0 \<and> sub = ''general'')"
proof (cases "str_contains (str_strip url0) ''civitai.com''")
  case True
  with assms obtain u where u: "civitai_fix_url (str_strip url0) = Inr u"
    by (cases "civitai_fix_url (str_strip url0)")
       (auto simp: get_lora_from_url_def Let_def split: if_splits)
  obtain r w1 where c: "find_or_create_cache w = (r, w1)"
    by (cases "find_or_create_cache w")
  with assms True u obtain cache where r: "r = Inr cache"
    by (cases r) (auto simp: get_lora_from_url_def Let_def split: if_splits)
  let ?q = "os_path_join (os_path_join cache ''civitai'')
              (get_filename_from_url md5 u ''safetensors'')"
  from assms True u c r
  have "fst (fetch_if_absent (add_api_key u w) ?q w1) = Inr p"
    by (auto simp: get_lora_from_url_def Let_def split: if_splits)
  then have "p = ?q"
    using fetch_if_absent_path [of "add_api_key u w" ?q w1 p]
    by (cases "fetch_if_absent (add_api_key u w) ?q w1") simp
  with True u c r show ?thesis by simp
next
  case False
  obtain r w1 where c: "find_or_create_cache w = (r, w1)"
    by (cases "find_or_create_cache w")
  with assms False obtain cache where r: "r = Inr cache"
    by (cases r) (auto simp: get_lora_from_url_def Let_def split: if_splits)
  let ?q = "os_path_join (os_path_join cache ''general'')
              (get_filename_from_url md5 (str_strip url0) ''safetensors'')"
  from assms False c r
  have "fst (fetch_if_absent (str_strip url0) ?q w1) = Inr p"
    by (auto simp: get_lora_from_url_def Let_def split: if_splits)
  then have "p = ?q"
    using fetch_if_absent_path [of "str_strip url0" ?q w1 p]
    by (cases "fetch_if_absent (str_strip url0) ?q w1") simp
  with False c r show ?thesis by simp
qed

section \<open>Evaluations used below\<close>

lemma strip_hf_example:
  "str_strip ''https://huggingface.co/owner/repo/blob/main/sub/file.safetensors?download=true''
     = ''https://huggingface.co/owner/repo/blob/main/sub/file.safetensors?download=true''"
  by code_simp

lemma hf_parse_blob_example:
  "hf_parse ''https://huggingface.co/owner/repo/blob/main/sub/file.safetensors?download=true''
     = Inr (''owner/repo'', Some ''sub'', ''file.safetensors'')"
  by code_simp

lemma hf_parse_resolve_example:
  "hf_parse ''https://huggingface.co/owner/repo/resolve/main/sub/file.safetensors''
     = Inr (''owner/repo'', Some ''sub'', ''file.safetensors'')"
  by code_simp

lemma strip_owner_repo: "str_strip ''owner/repo'' = ''owner/repo''"
  by code_simp

lemma strip_file_safetensors: "str_strip ''file.safetensors'' = ''file.safetensors''"
  by code_simp

lemma strip_hf_short:
  "str_strip ''https://huggingface.co/file.safetensors''
     = ''https://huggingface.co/file.safetensors''"
  by code_simp

lemma hf_parse_short: "hf_parse ''https://huggingface.co/file.safetensors'' = Inl IndexError"
  by code_simp

lemma lower_hf_short:
  "str_lower ''https://huggingface.co/file.safetensors''
     = ''https://huggingface.co/file.safetensors''"
  by code_simp

lemma join_srv_ComfyUI: "os_path_join ''/srv'' ''ComfyUI'' = ''/srv/ComfyUI''"
  by (simp add: os_path_join_def str_endswith_def)

lemma join_srv_models: "os_path_join ''/srv'' ''models'' = ''/srv/models''"
  by (simp add: os_path_join_def str_endswith_def)

lemma join_srv_cache: "os_path_join ''/srv'' ''huggingface_cache'' = ''/srv/huggingface_cache''"
  by (simp add: os_path_join_def str_endswith_def)

lemma dirname_cache: "os_path_dirname ''/srv/huggingface_cache'' = ''/srv''"
  by (simp add: os_path_dirname_def)

lemma cache_of_example_world:
  "find_or_create_cache (example_world\<lparr>environ := e\<rparr>)
     = (Inr ''/srv/huggingface_cache'',
        example_world\<lparr>environ := e, dirs := {''/srv/huggingface_cache'', ''/srv''}\<rparr>)"
  apply (simp add: find_or_create_cache_def example_world_def join_srv_ComfyUI join_srv_models
      join_srv_cache dirname_cache os_path_exists_def os_mkdir_def)
  apply (simp add: Let_def)
  done

lemma civitai_cache_path:
  "os_path_join (os_path_join ''/srv/huggingface_cache'' ''civitai'')
     (get_filename_from_url example_digest u ''safetensors'')
     = ''/srv/huggingface_cache/civitai/0123456789abcdef0123456789abcdef.safetensors''"
  by (simp add: os_path_join_def str_endswith_def get_filename_from_url_def example_digest_def)

lemma dirname_civitai_cache_path:
  "os_path_dirname ''/srv/huggingface_cache/civitai/0123456789abcdef0123456789abcdef.safetensors''
     = ''/srv/huggingface_cache/civitai''"
  by (simp add: os_path_dirname_def)

lemma dir_chain_civitai:
  "dir_chain [] ''/srv/huggingface_cache/civitai''
     = [''/srv'', ''/srv/huggingface_cache'', ''/srv/huggingface_cache/civitai'']"
  by simp


lemma fetch_civitai_example:
  "fetch_if_absent v
     ''/srv/huggingface_cache/civitai/0123456789abcdef0123456789abcdef.safetensors''
     (example_world\<lparr>environ := e, dirs := {''/srv/huggingface_cache'', ''/srv''}\<rparr>)
   = (Inr ''/srv/huggingface_cache/civitai/0123456789abcdef0123456789abcdef.safetensors'',
      example_world
        \<lparr>environ := e,
         dirs := {''/srv/huggingface_cache'', ''/srv'', ''/srv/huggingface_cache/civitai''},
         files := [''/srv/huggingface_cache/civitai/0123456789abcdef0123456789abcdef.safetensors''
                     \<mapsto> ''weights''],
         requests_log := [v]\<rparr>)"
proof -
  let ?p = "''/srv/huggingface_cache/civitai/0123456789abcdef0123456789abcdef.safetensors''"
  let ?w = "example_world\<lparr>environ := e, dirs := {''/srv/huggingface_cache'', ''/srv''}\<rparr>"
  let ?w1 = "example_world\<lparr>environ := e,
     dirs := {''/srv/huggingface_cache'', ''/srv'', ''/srv/huggingface_cache/civitai''}\<rparr>"
  have 1: "\<not> os_path_exists ?p ?w"
    by (simp add: os_path_exists_def example_world_def)
  have 2: "os_makedirs (os_path_dirname ?p) ?w = Inr ?w1"
    unfolding dirname_civitai_cache_path
    by (simp add: os_makedirs_def dir_chain_civitai example_world_def insert_commute)
  have 3: "server ?w v = Inr (Response 200 ''weights'')"
    by (simp add: example_world_def)
  have 4: "?p \<notin> dirs ?w1" by simp
  have 5: "os_path_dirname ?p \<in> dirs ?w1"
    unfolding dirname_civitai_cache_path by simp
  from fetch_fresh [OF 1 2 3 4 5] show ?thesis
    by (simp add: example_world_def)
qed

lemma civitai_example_run:
  assumes "str_strip url0 = url" "url \<noteq> []" "str_startswith url ''http''"
    "\<not> str_contains url ''huggingface.co''" "str_contains url ''civitai.com''"
    "civitai_fix_url url = Inr u" "str_contains u ''SafeTensor''"
  shows "get_lora_from_url example_digest hub url0 (example_world\<lparr>environ := e\<rparr>)
   = (Inr ''/srv/huggingface_cache/civitai/0123456789abcdef0123456789abcdef.safetensors'',
      example_world
        \<lparr>environ := e,
         dirs := {''/srv/huggingface_cache'', ''/srv'', ''/srv/huggingface_cache/civitai''},
         files := [''/srv/huggingface_cache/civitai/0123456789abcdef0123456789abcdef.safetensors''
                     \<mapsto> ''weights''],
         requests_log := [add_api_key u (example_world\<lparr>environ := e\<rparr>)]\<rparr>)"
  using assms
  by (simp add: get_lora_from_url_def cache_of_example_world civitai_cache_path
      fetch_civitai_example)

lemma example_world_environ: "example_world\<lparr>environ := Map.empty\<rparr> = example_world"
  by (simp add: example_world_def)

lemma cache_of_cached_world:
  "find_or_create_cache cached_world = (Inr ''/srv/huggingface_cache'', cached_world)"
  apply (simp add: find_or_create_cache_def cached_world_def example_world_def join_srv_ComfyUI
      join_srv_models join_srv_cache os_path_exists_def)
  apply (simp add: Let_def)
  done

lemma general_cache_path:
  "os_path_join (os_path_join ''/srv/huggingface_cache'' ''general'')
     (get_filename_from_url example_digest u ''safetensors'')
     = ''/srv/huggingface_cache/general/0123456789abcdef0123456789abcdef.safetensors''"
  by (simp add: os_path_join_def str_endswith_def get_filename_from_url_def example_digest_def)

lemma strip_generic_example:
  "str_strip ''https://example.com/weights.safetensors''
     = ''https://example.com/weights.safetensors''"
  by code_simp

lemma lower_generic_example:
  "str_lower ''https://example.com/weights.safetensors''
     = ''https://example.com/weights.safetensors''"
  by code_simp

lemma strip_civitai_example:
  "str_strip ''https://civitai.com/models/111?modelVersionId=5000''
     = ''https://civitai.com/models/111?modelVersionId=5000''"
  by code_simp

lemma fix_civitai_example:
  "civitai_fix_url ''https://civitai.com/models/111?modelVersionId=5000''
     = Inr ''https://civitai.com/api/download/models/5000?type=Model&format=SafeTensor''"
  by (simp add: civitai_fix_url_def civitai_download_url_def str_split_def list_index_def)

lemma strip_ckpt_example:
  "str_strip ''https://civitai.com/models/111/weights.ckpt?modelVersionId=5000''
     = ''https://civitai.com/models/111/weights.ckpt?modelVersionId=5000''"
  by code_simp

lemma lower_ckpt_example:
  "str_lower ''https://civitai.com/models/111/weights.ckpt?modelVersionId=5000''
     = ''https://civitai.com/models/111/weights.ckpt?modelversionid=5000''"
  by code_simp

lemma fix_ckpt_example:
  "civitai_fix_url ''https://civitai.com/models/111/weights.ckpt?modelVersionId=5000''
     = Inr ''https://civitai.com/api/download/models/5000?type=Model&format=SafeTensor''"
  by (simp add: civitai_fix_url_def civitai_download_url_def str_split_def list_index_def)

lemma strip_httpx_example:
  "str_strip ''httpx://civitai.com/models/111?modelVersionId=5000''
     = ''httpx://civitai.com/models/111?modelVersionId=5000''"
  by code_simp

lemma fix_httpx_example:
  "civitai_fix_url ''httpx://civitai.com/models/111?modelVersionId=5000''
     = Inr ''https://civitai.com/api/download/models/5000?type=Model&format=SafeTensor''"
  by (simp add: civitai_fix_url_def civitai_download_url_def str_split_def list_index_def)

lemma strip_blank: "str_strip ''   '' = []"
  by code_simp

lemma strip_ftp_example:
  "str_strip ''ftp://example.com/weights.safetensors''
     = ''ftp://example.com/weights.safetensors''"
  by code_simp

lemma strip_generic_ckpt:
  "str_strip ''https://example.com/weights.ckpt?v=2'' = ''https://example.com/weights.ckpt?v=2''"
  by code_simp

lemma lower_generic_ckpt:
  "str_lower ''https://example.com/weights.ckpt?v=2'' = ''https://example.com/weights.ckpt?v=2''"
  by code_simp

lemma strip_civitai_page:
  "str_strip ''https://civitai.com/models/111'' = ''https://civitai.com/models/111''"
  by code_simp

lemma dirname_plain_dest: "os_path_dirname ''/srv/cache/weights.safetensors'' = ''/srv/cache''"
  by (simp add: os_path_dirname_def)

lemma dir_chain_plain_dest: "dir_chain [] ''/srv/cache'' = [''/srv'', ''/srv/cache'']"
  by simp

lemma add_api_key_example: "add_api_key u example_world = u"
  by (simp add: add_api_key_def example_world_def)

section \<open>Where the rewrite of the version id cuts the URL\<close>

lemma first_occurrence:
  assumes "sep \<noteq> []"
  shows "sublist sep s \<Longrightarrow> \<exists>pre rest. s = pre @ sep @ rest \<and> \<not> sublist sep pre"
proof (induction s)
  case Nil
  with assms show ?case by simp
next
  case (Cons c cs)
  show ?case
  proof (cases "prefix sep (c # cs)")
    case True
    then obtain rest where "c # cs = sep @ rest" by (rule prefixE)
    with assms have "c # cs = [] @ sep @ rest \<and> \<not> sublist sep []" by simp
    then show ?thesis by (intro exI)
  next
    case False
    with Cons.prems have sub: "sublist sep cs" by (simp add: sublist_Cons_right)
    from Cons.IH [OF sub] obtain pre rest
      where cs: "cs = pre @ sep @ rest" and pre: "\<not> sublist sep pre"
      by (elim exE conjE)
    have "\<not> prefix sep (c # pre)"
    proof
      assume "prefix sep (c # pre)"
      then have "prefix sep ((c # pre) @ sep @ rest)" by (rule prefix_prefix)
      with cs False show False by simp
    qed
    with pre have "\<not> sublist sep (c # pre)" by (simp add: sublist_Cons_right)
    with cs have "c # cs = (c # pre) @ sep @ rest \<and> \<not> sublist sep (c # pre)" by simp
    then show ?thesis by (intro exI)
  qed
qed

lemma value_upto_terminator:
  assumes "sep \<noteq> []"
  shows "\<exists>v rest. s = v @ rest \<and> c \<notin> set v \<and> \<not> sublist sep v
           \<and> (rest = [] \<or> prefix [c] rest \<or> prefix sep rest)"
proof (induction s)
  case Nil
  from assms have "[] = [] @ [] \<and> c \<notin> set [] \<and> \<not> sublist sep []
      \<and> ([] = [] \<or> prefix [c] [] \<or> prefix sep [])"
    by simp
  then show ?case by (intro exI)
next
  case (Cons x xs)
  show ?case
  proof (cases "x = c \<or> prefix sep (x # xs)")
    case True
    then have "x # xs = [] \<or> prefix [c] (x # xs) \<or> prefix sep (x # xs)" by auto
    with assms have "x # xs = [] @ x # xs \<and> c \<notin> set [] \<and> \<not> sublist sep []
        \<and> (x # xs = [] \<or> prefix [c] (x # xs) \<or> prefix sep (x # xs))"
      by simp
    then show ?thesis by (intro exI)
  next
    case False
    from Cons.IH obtain v rest where xs: "xs = v @ rest" and v: "c \<notin> set v"
      "\<not> sublist sep v" and rest: "rest = [] \<or> prefix [c] rest \<or> prefix sep rest"
      by (elim exE conjE)
    have "\<not> prefix sep (x # v)"
    proof
      assume "prefix sep (x # v)"
      then have "prefix sep ((x # v) @ rest)" by (rule prefix_prefix)
      with xs False show False by simp
    qed
    with v(2) have "\<not> sublist sep (x # v)" by (simp add: sublist_Cons_right)
    moreover from False v(1) have "c \<notin> set (x # v)" by auto
    moreover from xs have "x # xs = (x # v) @ rest" by simp
    ultimately have "x # xs = (x # v) @ rest \<and> c \<notin> set (x # v) \<and> \<not> sublist sep (x # v)
        \<and> (rest = [] \<or> prefix [c] rest \<or> prefix sep rest)"
      using rest by simp
    then show ?thesis by (intro exI)
  qed
qed

lemma civitai_fix_url_cut:
  assumes pre: "\<not> str_contains pre ''modelVersionId=''"
    and vid: "\<not> str_contains vid ''modelVersionId=''"
    and amp: "CHR ''&'' \<notin> set vid"
    and rest: "rest = [] \<or> str_startswith rest ''&'' \<or> str_startswith rest ''modelVersionId=''"
  shows "civitai_fix_url (pre @ ''modelVersionId='' @ vid @ rest)
           = Inr (civitai_download_url vid)"
proof -
  let ?sep = "''modelVersionId=''"
  let ?tail = "split_from [] (vid @ rest) ?sep"
  have border: "hd ?sep \<notin> set (tl ?sep)" by simp
  from pre have "\<not> sublist ?sep pre" by (simp add: str_contains_sublist)
  then have split: "str_split (pre @ ?sep @ vid @ rest) ?sep = pre # ?tail"
    unfolding str_split_def
    using split_from_first [of ?sep pre "[]" "vid @ rest"] border by simp
  have "?tail \<noteq> []" by (rule split_from_not_Nil)
  then have idx: "list_index (pre # ?tail) 1 = Inr (hd ?tail)"
    by (cases ?tail) (simp_all add: list_index_def)
  from vid have nv: "\<not> sublist ?sep vid" by (simp add: str_contains_sublist)
  have at_amp_form: "\<exists>rs. rest = CHR ''&'' # rs" if "str_startswith rest ''&''"
    using that by (cases rest) simp_all
  have at_sep_form: "\<exists>rs. rest = ?sep @ rs" if "str_startswith rest ?sep"
  proof -
    from that have "prefix ?sep rest" by (simp only: str_startswith_prefix)
    then obtain rs where "rest = ?sep @ rs" by (rule prefixE)
    then show ?thesis by (rule exI)
  qed
  from rest at_amp_form at_sep_form
  consider (at_end) "rest = []" | (at_amp) rs where "rest = CHR ''&'' # rs"
    | (at_sep) rs where "rest = ?sep @ rs"
    by blast
  then have "hd (str_split (hd ?tail) ''&'') = vid"
  proof cases
    case at_end
    with nv have "?tail = [vid]" by (simp add: split_from_no_sep)
    with amp show ?thesis
      unfolding str_split_def using hd_split_char_end [of "CHR ''&''" vid "[]"] by simp
  next
    case at_amp
    have "CHR ''&'' \<notin> set ?sep" by simp
    from split_from_skip [OF this nv, of "[]" rs]
    have "?tail = split_from (vid @ ''&'') rs ?sep" using at_amp by simp
    moreover have "prefix (vid @ ''&'') (hd (split_from (vid @ ''&'') rs ?sep))"
      by (rule hd_split_from_prefix)
    ultimately obtain t where "hd ?tail = vid @ CHR ''&'' # t"
      by (auto simp: prefix_def)
    with amp show ?thesis
      unfolding str_split_def using hd_split_char [of "CHR ''&''" vid "[]" t] by simp
  next
    case at_sep
    from split_from_first [of ?sep vid "[]" rs] border nv
    have "split_from [] (vid @ ?sep @ rs) ?sep = vid # split_from [] rs ?sep" by simp
    with at_sep have "hd ?tail = vid" by simp
    with amp show ?thesis
      unfolding str_split_def using hd_split_char_end [of "CHR ''&''" vid "[]"] by simp
  qed
  with split idx contains_version_id [of pre "vid @ rest"] show ?thesis
    by (simp add: civitai_fix_url_def)
qed

section \<open>A fetch from a generic host in the example world\<close>

lemma dirname_general_cache_path:
  "os_path_dirname ''/srv/huggingface_cache/general/0123456789abcdef0123456789abcdef.safetensors''
     = ''/srv/huggingface_cache/general''"
  by (simp add: os_path_dirname_def)

lemma dir_chain_general:
  "dir_chain [] ''/srv/huggingface_cache/general''
     = [''/srv'', ''/srv/huggingface_cache'', ''/srv/huggingface_cache/general'']"
  by simp

lemma fetch_general_example:
  "fetch_if_absent v
     ''/srv/huggingface_cache/general/0123456789abcdef0123456789abcdef.safetensors''
     (example_world\<lparr>environ := e, dirs := {''/srv/huggingface_cache'', ''/srv''}\<rparr>)
   = (Inr ''/srv/huggingface_cache/general/0123456789abcdef0123456789abcdef.safetensors'',
      example_world
        \<lparr>environ := e,
         dirs := {''/srv/huggingface_cache'', ''/srv'', ''/srv/huggingface_cache/general''},
         files := [''/srv/huggingface_cache/general/0123456789abcdef0123456789abcdef.safetensors''
                     \<mapsto> ''weights''],
         requests_log := [v]\<rparr>)"
proof -
  let ?p = "''/srv/huggingface_cache/general/0123456789abcdef0123456789abcdef.safetensors''"
  let ?w = "example_world\<lparr>environ := e, dirs := {''/srv/huggingface_cache'', ''/srv''}\<rparr>"
  let ?w1 = "example_world\<lparr>environ := e,
     dirs := {''/srv/huggingface_cache'', ''/srv'', ''/srv/huggingface_cache/general''}\<rparr>"
  have 1: "\<not> os_path_exists ?p ?w"
    by (simp add: os_path_exists_def example_world_def)
  have 2: "os_makedirs (os_path_dirname ?p) ?w = Inr ?w1"
    unfolding dirname_general_cache_path
    by (simp add: os_makedirs_def dir_chain_general example_world_def insert_commute)
  have 3: "server ?w v = Inr (Response 200 ''weights'')"
    by (simp add: example_world_def)
  have 4: "?p \<notin> dirs ?w1" by simp
  have 5: "os_path_dirname ?p \<in> dirs ?w1"
    unfolding dirname_general_cache_path by simp
  from fetch_fresh [OF 1 2 3 4 5] show ?thesis
    by (simp add: example_world_def)
qed

lemma general_example_run:
  assumes "str_strip url0 = url" "url \<noteq> []" "str_startswith url ''http''"
    "\<not> str_contains url ''huggingface.co''" "\<not> str_contains url ''civitai.com''"
    "str_endswith (hd (str_split (str_lower url) ''?'')) ''safetensors''"
  shows "get_lora_from_url example_digest hub url0 (example_world\<lparr>environ := e\<rparr>)
   = (Inr ''/srv/huggingface_cache/general/0123456789abcdef0123456789abcdef.safetensors'',
      example_world
        \<lparr>environ := e,
         dirs := {''/srv/huggingface_cache'', ''/srv'', ''/srv/huggingface_cache/general''},
         files := [''/srv/huggingface_cache/general/0123456789abcdef0123456789abcdef.safetensors''
                     \<mapsto> ''weights''],
         requests_log := [url]\<rparr>)"
  using assms
  by (simp add: get_lora_from_url_def cache_of_example_world general_cache_path
      fetch_general_example)

lemma strip_notsafetensors_example:
  "str_strip ''https://example.com/model.notsafetensors''
     = ''https://example.com/model.notsafetensors''"
  by code_simp

lemma lower_notsafetensors_example:
  "str_lower ''https://example.com/model.notsafetensors''
     = ''https://example.com/model.notsafetensors''"
  by code_simp

section \<open>The claims\<close>

text \<open>
  C1. The URL
  \<open>https://huggingface.co/owner/repo/blob/main/sub/file.safetensors?download=true\<close> takes
  the branch of the repository host: the download flag is cut off and \<open>/blob/\<close> becomes
  \<open>/resolve/\<close>, so that it parses like the URL in \<open>resolve\<close> form, to the repository id
  \<open>owner/repo\<close>, the subfolder \<open>sub\<close> and the filename \<open>file.safetensors\<close>; and
  \<open>get_lora_from_url\<close> calls \<open>hf_hub_download\<close> with exactly these, once the cache
  directory is found.
\<close>

theorem C1_hf_blob_url_resolves:
  "hf_parse ''https://huggingface.co/owner/repo/blob/main/sub/file.safetensors?download=true''
     = Inr (''owner/repo'', Some ''sub'', ''file.safetensors'')
   \<and> hf_parse ''https://huggingface.co/owner/repo/blob/main/sub/file.safetensors?download=true''
     = hf_parse ''https://huggingface.co/owner/repo/resolve/main/sub/file.safetensors''
   \<and> get_lora_from_url md5 hub
       ''https://huggingface.co/owner/repo/blob/main/sub/file.safetensors?download=true'' w
     = (case find_or_create_cache w of
          (Inl e, w1) \<Rightarrow> (Inl e, w1)
        | (Inr cache, w1) \<Rightarrow>
            hub \<lparr>repo_id = ''owner/repo'', subfolder = Some ''sub'',
                 filename = ''file.safetensors'', cache_dir = cache\<rparr> w1)"
  by (simp add: get_lora_from_url_def strip_hf_example hf_parse_blob_example
        hf_parse_resolve_example strip_owner_repo strip_file_safetensors
      split: prod.splits sum.splits)

text \<open>
  C2, as stated, fails. The URL
  \<open>https://civitai.com/models/111?parentmodelVersionId=9&modelVersionId=5000\<close> has the
  query parameter \<open>modelVersionId=5000\<close>, but the rewrite takes the text after the first
  \<open>modelVersionId=\<close>, which here belongs to another parameter, and gives the download URL
  of version 9: the result depends on the other query parameters. And in
  \<open>https://civitai.com/models/111?modelVersionId=5modelVersionId=7\<close> the text taken as
  the id ends at the second \<open>modelVersionId=\<close>, so the rewrite gives version 5 and not
  the whole value of the parameter.
\<close>

theorem C2_other_parameter_changes_rewrite:
  "str_contains ''https://civitai.com/models/111?parentmodelVersionId=9&modelVersionId=5000''
     ''civitai.com''
   \<and> ''modelVersionId=5000''
       \<in> set (str_split
                (str_split
                   ''https://civitai.com/models/111?parentmodelVersionId=9&modelVersionId=5000''
                   ''?'' ! 1)
                ''&'')
   \<and> civitai_fix_url
        ''https://civitai.com/models/111?parentmodelVersionId=9&modelVersionId=5000''
       = Inr ''https://civitai.com/api/download/models/9?type=Model&format=SafeTensor''
   \<and> civitai_fix_url
        ''https://civitai.com/models/111?parentmodelVersionId=9&modelVersionId=5000''
       \<noteq> Inr ''https://civitai.com/api/download/models/5000?type=Model&format=SafeTensor''
   \<and> str_split (str_split ''https://civitai.com/models/111?modelVersionId=5modelVersionId=7''
                  ''?'' ! 1) ''&''
       = [''modelVersionId=5modelVersionId=7'']
   \<and> civitai_fix_url ''https://civitai.com/models/111?modelVersionId=5modelVersionId=7''
       = Inr ''https://civitai.com/api/download/models/5?type=Model&format=SafeTensor''"
  by (simp add: civitai_fix_url_def civitai_download_url_def str_split_def list_index_def)

text \<open>
  C2, amended. Let \<open>vid\<close> be the text that follows the first occurrence of
  \<open>modelVersionId=\<close> in the URL and runs up to the next \<open>&\<close>, the next \<open>modelVersionId=\<close>
  or the end of the URL, whichever comes first: the URL is \<open>pre\<close>, \<open>modelVersionId=\<close>,
  \<open>vid\<close>, \<open>rest\<close>, where \<open>pre\<close> does not contain \<open>modelVersionId=\<close>, \<open>vid\<close> contains
  neither \<open>&\<close> nor \<open>modelVersionId=\<close>, and \<open>rest\<close> is empty or begins with \<open>&\<close> or with
  \<open>modelVersionId=\<close>. Then the rewrite gives
  \<open>https://civitai.com/api/download/models/vid?type=Model&format=SafeTensor\<close>, whatever
  else \<open>pre\<close> and \<open>rest\<close> hold. When the first occurrence is the version-id parameter and
  its value holds no \<open>modelVersionId=\<close>, \<open>vid\<close> is the value of that parameter.
\<close>

theorem C2_civitai_rewrite_first_occurrence:
  assumes "\<not> str_contains pre ''modelVersionId=''"
    and "\<not> str_contains vid ''modelVersionId=''"
    and "CHR ''&'' \<notin> set vid"
    and "rest = [] \<or> str_startswith rest ''&'' \<or> str_startswith rest ''modelVersionId=''"
  shows "civitai_fix_url (pre @ ''modelVersionId='' @ vid @ rest)
           = Inr (''https://civitai.com/api/download/models/'' @ vid
                    @ ''?type=Model&format=SafeTensor'')"
  using civitai_fix_url_cut [OF assms] by (simp add: civitai_download_url_def)

theorem C2_civitai_rewrite_witness:
  "civitai_fix_url ''https://civitai.com/models/111?modelVersionId=5000''
     = Inr ''https://civitai.com/api/download/models/5000?type=Model&format=SafeTensor''
   \<and> civitai_fix_url ''https://civitai.com/models/111?type=LORA&modelVersionId=5000&format=x''
     = Inr ''https://civitai.com/api/download/models/5000?type=Model&format=SafeTensor''
   \<and> civitai_fix_url ''https://civitai.com/models/111?modelVersionId=5modelVersionId=7''
     = Inr ''https://civitai.com/api/download/models/5?type=Model&format=SafeTensor''"
  using C2_civitai_rewrite_first_occurrence
          [of "''https://civitai.com/models/111?''" "''5000''" "[]"]
        C2_civitai_rewrite_first_occurrence
          [of "''https://civitai.com/models/111?type=LORA&''" "''5000''" "''&format=x''"]
        C2_civitai_rewrite_first_occurrence
          [of "''https://civitai.com/models/111?''" "''5''" "''modelVersionId=7''"]
  by simp

text \<open>
  C3. When a URL of the marketplace or of a generic host passes the checks, the cache
  directory is found, and something already exists at the cache path \<open>p\<close> computed for the
  URL, then \<open>get_lora_from_url\<close> returns \<open>p\<close>; no request has been issued and no file has
  been changed.
\<close>

theorem C3_cache_hit_no_request:
  assumes url: "url = str_strip url0" "url \<noteq> []" "str_startswith url ''http''"
      "\<not> str_contains url ''huggingface.co''"
    and branch:
      "(str_contains url ''civitai.com'' \<and> civitai_fix_url url = Inr u
          \<and> str_contains u ''SafeTensor'' \<and> sub = ''civitai'')
       \<or> (\<not> str_contains url ''civitai.com''
          \<and> str_endswith (hd (str_split (str_lower url) ''?'')) ''safetensors''
          \<and> u = url \<and> sub = ''general'')"
    and cache: "find_or_create_cache w = (Inr cache, w1)"
    and p: "p = os_path_join (os_path_join cache sub) (get_filename_from_url md5 u ''safetensors'')"
    and ex: "os_path_exists p w"
  shows "get_lora_from_url md5 hub url0 w = (Inr p, w1)
         \<and> requests_log w1 = requests_log w \<and> files w1 = files w"
proof -
  from cache ex have "os_path_exists p w1" by (rule find_or_create_cache_exists)
  then have hit: "fetch_if_absent v p w1 = (Inr p, w1)" for v
    by (rule fetch_if_absent_hit)
  from branch have "get_lora_from_url md5 hub url0 w = (Inr p, w1)"
  proof
    assume "str_contains url ''civitai.com'' \<and> civitai_fix_url url = Inr u
          \<and> str_contains u ''SafeTensor'' \<and> sub = ''civitai''"
    with url cache hit p show ?thesis
      by (simp add: get_lora_from_url_def Let_def)
  next
    assume "\<not> str_contains url ''civitai.com''
          \<and> str_endswith (hd (str_split (str_lower url) ''?'')) ''safetensors''
          \<and> u = url \<and> sub = ''general''"
    with url cache hit p show ?thesis
      by (simp add: get_lora_from_url_def Let_def)
  qed
  with find_or_create_cache_frame(1,2) [OF cache] show ?thesis by simp
qed

theorem C3_cache_hit_witness:
  "get_lora_from_url example_digest example_hub ''https://example.com/weights.safetensors''
     cached_world
     = (Inr ''/srv/huggingface_cache/general/0123456789abcdef0123456789abcdef.safetensors'',
        cached_world)
   \<and> requests_log cached_world = []
   \<and> files cached_world
         ''/srv/huggingface_cache/general/0123456789abcdef0123456789abcdef.safetensors''
       = Some ''old weights''"
proof -
  let ?url = "''https://example.com/weights.safetensors''"
  let ?p = "''/srv/huggingface_cache/general/0123456789abcdef0123456789abcdef.safetensors''"
  have 1: "?url = str_strip ?url" by (simp add: strip_generic_example)
  have 2: "?url \<noteq> []" by simp
  have 3: "str_startswith ?url ''http''" by simp
  have 4: "\<not> str_contains ?url ''huggingface.co''" by simp
  have 5: "(str_contains ?url ''civitai.com'' \<and> civitai_fix_url ?url = Inr ?url
          \<and> str_contains ?url ''SafeTensor'' \<and> ''general'' = ''civitai'')
       \<or> (\<not> str_contains ?url ''civitai.com''
          \<and> str_endswith (hd (str_split (str_lower ?url) ''?'')) ''safetensors''
          \<and> ?url = ?url \<and> ''general'' = ''general'')"
    by (simp add: lower_generic_example str_split_def str_endswith_def)
  have 7: "?p = os_path_join (os_path_join ''/srv/huggingface_cache'' ''general'')
                  (get_filename_from_url example_digest ?url ''safetensors'')"
    by (simp add: general_cache_path)
  have 8: "os_path_exists ?p cached_world"
    by (simp add: os_path_exists_def cached_world_def)
  from C3_cache_hit_no_request [OF 1 2 3 4 5 cache_of_cached_world 7 8, of example_hub]
  have "get_lora_from_url example_digest example_hub ?url cached_world = (Inr ?p, cached_world)"
    by simp
  moreover have "requests_log cached_world = []" "files cached_world ?p = Some ''old weights''"
    by (simp_all add: cached_world_def example_world_def)
  ultimately show ?thesis by simp
qed

text \<open>
  C4. For a URL of the marketplace or of a generic host, the path that \<open>get_lora_from_url\<close>
  returns is the same whatever the environment holds, so with and without the API key:
  its last part is \<open>get_filename_from_url\<close> of the URL (for the marketplace, of the URL after
  the rewrite and before the key is added), a function of that string alone.
\<close>

theorem C4_cache_filename_ignores_api_key:
  assumes "\<not> str_contains (str_strip url0) ''huggingface.co''"
    and "fst (get_lora_from_url md5 hub url0 w) = Inr p"
    and "fst (get_lora_from_url md5 hub url0 (w\<lparr>environ := e\<rparr>)) = Inr p'"
  shows "p' = p
         \<and> (\<exists>u sub. p = os_path_join (os_path_join (projr (fst (find_or_create_cache w))) sub)
                         (get_filename_from_url md5 u ''safetensors'')
               \<and> (if str_contains (str_strip url0) ''civitai.com''
                   then civitai_fix_url (str_strip url0) = Inr u \<and> sub = ''civitai''
                   else u = str_strip url0 \<and> sub = ''general''))"
proof -
  have same: "fst (find_or_create_cache (w\<lparr>environ := e\<rparr>)) = fst (find_or_create_cache w)"
    by (simp add: find_or_create_cache_environ)
  from get_lora_path_shape [OF assms(2) assms(1)] obtain u sub where
    p: "p = os_path_join (os_path_join (projr (fst (find_or_create_cache w))) sub)
                    (get_filename_from_url md5 u ''safetensors'')"
    and u: "if str_contains (str_strip url0) ''civitai.com''
               then civitai_fix_url (str_strip url0) = Inr u \<and> sub = ''civitai''
               else u = str_strip url0 \<and> sub = ''general''"
    by blast
  from get_lora_path_shape [OF assms(3) assms(1)] same obtain u' sub' where
    p': "p' = os_path_join (os_path_join (projr (fst (find_or_create_cache w))) sub')
                    (get_filename_from_url md5 u' ''safetensors'')"
    and u': "if str_contains (str_strip url0) ''civitai.com''
               then civitai_fix_url (str_strip url0) = Inr u' \<and> sub' = ''civitai''
               else u' = str_strip url0 \<and> sub' = ''general''"
    by auto
  from u u' have "u' = u \<and> sub' = sub" by (auto split: if_splits)
  with p p' u show ?thesis by blast
qed

theorem C4_api_key_witness:
  "fst (get_lora_from_url example_digest example_hub
          ''https://civitai.com/models/111?modelVersionId=5000'' example_world)
     = Inr ''/srv/huggingface_cache/civitai/0123456789abcdef0123456789abcdef.safetensors''
   \<and> fst (get_lora_from_url example_digest example_hub
          ''https://civitai.com/models/111?modelVersionId=5000''
          (example_world\<lparr>environ := [''CIVITAI_API_KEY'' \<mapsto> ''secret'']\<rparr>))
     = Inr ''/srv/huggingface_cache/civitai/0123456789abcdef0123456789abcdef.safetensors''
   \<and> requests_log (snd (get_lora_from_url example_digest example_hub
          ''https://civitai.com/models/111?modelVersionId=5000''
          (example_world\<lparr>environ := [''CIVITAI_API_KEY'' \<mapsto> ''secret'']\<rparr>)))
     = [''https://civitai.com/api/download/models/5000?type=Model&format=SafeTensor&token=secret'']"
proof -
  let ?url = "''https://civitai.com/models/111?modelVersionId=5000''"
  let ?u = "''https://civitai.com/api/download/models/5000?type=Model&format=SafeTensor''"
  let ?p = "''/srv/huggingface_cache/civitai/0123456789abcdef0123456789abcdef.safetensors''"
  let ?e = "[''CIVITAI_API_KEY'' \<mapsto> ''secret'']"
  have c: "str_contains ?url ''civitai.com''" by simp
  have h: "\<not> str_contains ?url ''huggingface.co''" by simp
  have s: "str_contains ?u ''SafeTensor''" by simp
  have run: "get_lora_from_url example_digest example_hub ?url (example_world\<lparr>environ := e\<rparr>)
    = (Inr ?p,
       example_world
         \<lparr>environ := e,
          dirs := {''/srv/huggingface_cache'', ''/srv'', ''/srv/huggingface_cache/civitai''},
          files := [?p \<mapsto> ''weights''],
          requests_log := [add_api_key ?u (example_world\<lparr>environ := e\<rparr>)]\<rparr>)" for e
    by (rule civitai_example_run [OF strip_civitai_example _ _ h c fix_civitai_example s])
       simp_all
  have 1: "\<not> str_contains (str_strip ?url) ''huggingface.co''"
    unfolding strip_civitai_example by (rule h)
  have 2: "fst (get_lora_from_url example_digest example_hub ?url example_world) = Inr ?p"
    using run [of Map.empty] by (simp add: example_world_environ)
  have 3: "fst (get_lora_from_url example_digest example_hub ?url
                  (example_world\<lparr>environ := ?e\<rparr>)) = Inr ?p"
    using run [of ?e] by simp
  have key: "add_api_key ?u (example_world\<lparr>environ := ?e\<rparr>) = ?u @ ''&token=secret''"
  proof -
    have "str_strip ''secret'' \<noteq> []" by code_simp
    then show ?thesis by (simp add: add_api_key_def)
  qed
  have 4: "requests_log (snd (get_lora_from_url example_digest example_hub ?url
                  (example_world\<lparr>environ := ?e\<rparr>))) = [?u @ ''&token=secret'']"
    using run [of ?e] key by simp
  from C4_cache_filename_ignores_api_key [OF 1 2 3] 2 3 4 show ?thesis by simp
qed

text \<open>
  C5, as stated, fails on both branches. For the marketplace, the URL
  \<open>https://civitai.com/models/111/weights.ckpt?modelVersionId=5000\<close> ends in \<open>.ckpt\<close> once
  the query string is cut off, yet \<open>get_lora_from_url\<close> does not raise: the URL is rewritten
  to the download URL of version 5000, which holds the marker \<open>SafeTensor\<close>, and the file is
  fetched from there. For a generic host, \<open>https://example.com/model.notsafetensors\<close> has
  the extension \<open>.notsafetensors\<close>, not \<open>.safetensors\<close>, yet it ends in the characters
  \<open>safetensors\<close>, passes the check and is fetched too.
\<close>

theorem C5_unsupported_extension_accepted:
  "str_contains ''https://civitai.com/models/111/weights.ckpt?modelVersionId=5000'' ''civitai.com''
   \<and> hd (str_split (str_lower ''https://civitai.com/models/111/weights.ckpt?modelVersionId=5000'')
            ''?'')
       = ''https://civitai.com/models/111/weights.ckpt''
   \<and> fst (get_lora_from_url example_digest example_hub
          ''https://civitai.com/models/111/weights.ckpt?modelVersionId=5000'' example_world)
       = Inr ''/srv/huggingface_cache/civitai/0123456789abcdef0123456789abcdef.safetensors''
   \<and> requests_log (snd (get_lora_from_url example_digest example_hub
          ''https://civitai.com/models/111/weights.ckpt?modelVersionId=5000'' example_world))
       = [''https://civitai.com/api/download/models/5000?type=Model&format=SafeTensor'']
   \<and> str_contains ''https://example.com/model.notsafetensors'' ''civitai.com'' = False
   \<and> str_contains ''https://example.com/model.notsafetensors'' ''huggingface.co'' = False
   \<and> hd (str_split (str_lower ''https://example.com/model.notsafetensors'') ''?'')
       = ''https://example.com/model.notsafetensors''
   \<and> str_endswith ''https://example.com/model.notsafetensors'' ''.safetensors'' = False
   \<and> fst (get_lora_from_url example_digest example_hub
          ''https://example.com/model.notsafetensors'' example_world)
       = Inr ''/srv/huggingface_cache/general/0123456789abcdef0123456789abcdef.safetensors''
   \<and> requests_log (snd (get_lora_from_url example_digest example_hub
          ''https://example.com/model.notsafetensors'' example_world))
       = [''https://example.com/model.notsafetensors'']"
proof -
  let ?url = "''https://civitai.com/models/111/weights.ckpt?modelVersionId=5000''"
  let ?u = "''https://civitai.com/api/download/models/5000?type=Model&format=SafeTensor''"
  let ?g = "''https://example.com/model.notsafetensors''"
  have c: "str_contains ?url ''civitai.com''" by simp
  have h: "\<not> str_contains ?url ''huggingface.co''" by simp
  have s: "str_contains ?u ''SafeTensor''" by simp
  have "get_lora_from_url example_digest example_hub ?url
          (example_world\<lparr>environ := Map.empty\<rparr>)
    = (Inr ''/srv/huggingface_cache/civitai/0123456789abcdef0123456789abcdef.safetensors'',
       example_world
         \<lparr>environ := Map.empty,
          dirs := {''/srv/huggingface_cache'', ''/srv'', ''/srv/huggingface_cache/civitai''},
          files := [''/srv/huggingface_cache/civitai/0123456789abcdef0123456789abcdef.safetensors''
                      \<mapsto> ''weights''],
          requests_log := [add_api_key ?u (example_world\<lparr>environ := Map.empty\<rparr>)]\<rparr>)"
    by (rule civitai_example_run [OF strip_ckpt_example _ _ h c fix_ckpt_example s]) simp_all
  then have market: "fst (get_lora_from_url example_digest example_hub ?url example_world)
       = Inr ''/srv/huggingface_cache/civitai/0123456789abcdef0123456789abcdef.safetensors''"
    "requests_log (snd (get_lora_from_url example_digest example_hub ?url example_world))
       = [?u]"
    by (simp_all add: example_world_environ add_api_key_example)
  have cut: "hd (str_split (str_lower ?url) ''?'')
       = ''https://civitai.com/models/111/weights.ckpt''"
    unfolding lower_ckpt_example by (simp add: str_split_def)
  have gc: "\<not> str_contains ?g ''civitai.com''" by simp
  have gh: "\<not> str_contains ?g ''huggingface.co''" by simp
  have gcut: "hd (str_split (str_lower ?g) ''?'') = ?g"
    unfolding lower_notsafetensors_example by (simp add: str_split_def)
  have gend: "str_endswith (hd (str_split (str_lower ?g) ''?'')) ''safetensors''"
    unfolding gcut by (simp add: str_endswith_def)
  have gdot: "str_endswith ?g ''.safetensors'' = False"
    by (simp add: str_endswith_def)
  have "get_lora_from_url example_digest example_hub ?g
          (example_world\<lparr>environ := Map.empty\<rparr>)
    = (Inr ''/srv/huggingface_cache/general/0123456789abcdef0123456789abcdef.safetensors'',
       example_world
         \<lparr>environ := Map.empty,
          dirs := {''/srv/huggingface_cache'', ''/srv'', ''/srv/huggingface_cache/general''},
          files := [''/srv/huggingface_cache/general/0123456789abcdef0123456789abcdef.safetensors''
                      \<mapsto> ''weights''],
          requests_log := [?g]\<rparr>)"
    by (rule general_example_run [OF strip_notsafetensors_example _ _ gh gc gend]) simp_all
  then have general: "fst (get_lora_from_url example_digest example_hub ?g example_world)
       = Inr ''/srv/huggingface_cache/general/0123456789abcdef0123456789abcdef.safetensors''"
    "requests_log (snd (get_lora_from_url example_digest example_hub ?g example_world)) = [?g]"
    by (simp_all add: example_world_environ)
  from c market cut gc gh gcut gdot general show ?thesis by simp
qed

text \<open>
  C5, amended. A URL of a generic host whose text before the first \<open>?\<close>, in lower case,
  does not end in the characters \<open>safetensors\<close> (no dot is asked for before them) is
  refused with \<open>ValueError\<close>. A URL of the marketplace that contains neither the text
  \<open>modelVersionId\<close> nor the marker \<open>SafeTensor\<close> is refused with \<open>ValueError\<close>; what the
  URL ends in plays no part there. In both cases the world is left as it was.
\<close>

theorem C5_unsupported_url_rejected:
  assumes "url = str_strip url0" "url \<noteq> []" "str_startswith url ''http''"
      "\<not> str_contains url ''huggingface.co''"
    and "(\<not> str_contains url ''civitai.com''
            \<and> \<not> str_endswith (hd (str_split (str_lower url) ''?'')) ''safetensors'')
         \<or> (str_contains url ''civitai.com'' \<and> \<not> str_contains url ''modelVersionId''
            \<and> \<not> str_contains url ''SafeTensor'')"
  shows "get_lora_from_url md5 hub url0 w
           = (Inl (ValueError ''Only safetensors files are supported for security reasons.''), w)"
  using assms by (auto simp: get_lora_from_url_def civitai_fix_url_def Let_def)

theorem C5_unsupported_url_witness:
  "get_lora_from_url example_digest example_hub ''https://example.com/weights.ckpt?v=2''
     example_world
     = (Inl (ValueError ''Only safetensors files are supported for security reasons.''),
        example_world)
   \<and> get_lora_from_url example_digest example_hub ''https://civitai.com/models/111''
     example_world
     = (Inl (ValueError ''Only safetensors files are supported for security reasons.''),
        example_world)"
proof -
  let ?g = "''https://example.com/weights.ckpt?v=2''"
  let ?c = "''https://civitai.com/models/111''"
  have g: "(\<not> str_contains ?g ''civitai.com''
            \<and> \<not> str_endswith (hd (str_split (str_lower ?g) ''?'')) ''safetensors'')
         \<or> (str_contains ?g ''civitai.com'' \<and> \<not> str_contains ?g ''modelVersionId''
            \<and> \<not> str_contains ?g ''SafeTensor'')"
    unfolding lower_generic_ckpt by (simp add: str_split_def str_endswith_def)
  have c: "(\<not> str_contains ?c ''civitai.com''
            \<and> \<not> str_endswith (hd (str_split (str_lower ?c) ''?'')) ''safetensors'')
         \<or> (str_contains ?c ''civitai.com'' \<and> \<not> str_contains ?c ''modelVersionId''
            \<and> \<not> str_contains ?c ''SafeTensor'')"
    by simp
  have "get_lora_from_url example_digest example_hub ?g example_world
     = (Inl (ValueError ''Only safetensors files are supported for security reasons.''),
        example_world)"
    by (rule C5_unsupported_url_rejected [OF strip_generic_ckpt [symmetric] _ _ _ g]) simp_all
  moreover have "get_lora_from_url example_digest example_hub ?c example_world
     = (Inl (ValueError ''Only safetensors files are supported for security reasons.''),
        example_world)"
    by (rule C5_unsupported_url_rejected [OF strip_civitai_page [symmetric] _ _ _ c]) simp_all
  ultimately show ?thesis by simp
qed

text \<open>
  C6, as stated, fails. The check of the scheme is \<open>url.startswith("http")\<close>.
  \<open>httpx://civitai.com/models/111?modelVersionId=5000\<close> begins neither with \<open>http://\<close> nor
  with \<open>https://\<close>, yet it passes the check, takes the marketplace branch, is rewritten, and
  the file is fetched.
\<close>

theorem C6_httpx_url_accepted:
  "str_strip ''httpx://civitai.com/models/111?modelVersionId=5000''
     = ''httpx://civitai.com/models/111?modelVersionId=5000''
   \<and> str_startswith ''httpx://civitai.com/models/111?modelVersionId=5000'' ''http://'' = False
   \<and> str_startswith ''httpx://civitai.com/models/111?modelVersionId=5000'' ''https://'' = False
   \<and> fst (get_lora_from_url example_digest example_hub
          ''httpx://civitai.com/models/111?modelVersionId=5000'' example_world)
       = Inr ''/srv/huggingface_cache/civitai/0123456789abcdef0123456789abcdef.safetensors''
   \<and> requests_log (snd (get_lora_from_url example_digest example_hub
          ''httpx://civitai.com/models/111?modelVersionId=5000'' example_world))
       = [''https://civitai.com/api/download/models/5000?type=Model&format=SafeTensor'']"
proof -
  let ?url = "''httpx://civitai.com/models/111?modelVersionId=5000''"
  let ?u = "''https://civitai.com/api/download/models/5000?type=Model&format=SafeTensor''"
  have c: "str_contains ?url ''civitai.com''" by simp
  have h: "\<not> str_contains ?url ''huggingface.co''" by simp
  have s: "str_contains ?u ''SafeTensor''" by simp
  have "get_lora_from_url example_digest example_hub ?url
          (example_world\<lparr>environ := Map.empty\<rparr>)
    = (Inr ''/srv/huggingface_cache/civitai/0123456789abcdef0123456789abcdef.safetensors'',
       example_world
         \<lparr>environ := Map.empty,
          dirs := {''/srv/huggingface_cache'', ''/srv'', ''/srv/huggingface_cache/civitai''},
          files := [''/srv/huggingface_cache/civitai/0123456789abcdef0123456789abcdef.safetensors''
                      \<mapsto> ''weights''],
          requests_log := [add_api_key ?u (example_world\<lparr>environ := Map.empty\<rparr>)]\<rparr>)"
    by (rule civitai_example_run [OF strip_httpx_example _ _ h c fix_httpx_example s]) simp_all
  then have "fst (get_lora_from_url example_digest example_hub ?url example_world)
       = Inr ''/srv/huggingface_cache/civitai/0123456789abcdef0123456789abcdef.safetensors''"
    and "requests_log (snd (get_lora_from_url example_digest example_hub ?url example_world))
       = [?u]"
    by (simp_all add: example_world_environ add_api_key_example)
  then show ?thesis using strip_httpx_example by simp
qed

text \<open>
  C6, amended. A URL that is empty after \<open>strip\<close>, or that does not begin with the four
  characters \<open>http\<close>, is refused with \<open>ValueError\<close> before any branch is taken: the world is
  left as it was, and \<open>hf_hub_download\<close> is not called.
\<close>

theorem C6_invalid_url_rejected:
  assumes "str_strip url0 = [] \<or> \<not> str_startswith (str_strip url0) ''http''"
  shows "get_lora_from_url md5 hub url0 w
           = (Inl (ValueError (if str_strip url0 = [] then ''URL is empty''
                               else ''Invalid URL'')), w)"
  using assms by (auto simp: get_lora_from_url_def Let_def)

theorem C6_invalid_url_witness:
  "get_lora_from_url example_digest example_hub ''   '' example_world
     = (Inl (ValueError ''URL is empty''), example_world)
   \<and> get_lora_from_url example_digest example_hub ''ftp://example.com/weights.safetensors''
       example_world
     = (Inl (ValueError ''Invalid URL''), example_world)"
  using C6_invalid_url_rejected [of "''   ''" example_digest example_hub example_world]
    C6_invalid_url_rejected
      [of "''ftp://example.com/weights.safetensors''" example_digest example_hub example_world]
  by (simp add: strip_blank strip_ftp_example)

text \<open>
  C7. When the directories of the destination can be made, so that the GET is issued, and
  the response has a status other than 200, \<open>download_file\<close> ends with the
  \<open>DownloadException\<close> of that status and the files are the ones from before: the
  destination is neither created nor written. Whenever \<open>download_file\<close> changes the files
  at all, the response had status 200, the call succeeded, and the only change is that the
  destination holds the body of the response.
\<close>

theorem C7_non_200_no_file:
  "(os_makedirs (os_path_dirname dest) w = Inr w1 \<and> server w url = Inr r
      \<and> status_code r \<noteq> 200
    \<longrightarrow> download_file url dest w
          = (Inl (DownloadException (status_code r)),
             w1\<lparr>requests_log := url # requests_log w\<rparr>)
        \<and> files (w1\<lparr>requests_log := url # requests_log w\<rparr>) = files w)
   \<and> (files (snd (download_file url dest w)) \<noteq> files w
    \<longrightarrow> (\<exists>r. server w url = Inr r \<and> status_code r = 200
           \<and> fst (download_file url dest w) = Inr ()
           \<and> files (snd (download_file url dest w)) = (files w)(dest \<mapsto> content r)))"
proof (intro conjI impI)
  assume a: "os_makedirs (os_path_dirname dest) w = Inr w1 \<and> server w url = Inr r
      \<and> status_code r \<noteq> 200"
  then have w1: "server w1 = server w" "requests_log w1 = requests_log w" "files w1 = files w"
    by (auto simp: os_makedirs_def split: if_splits)
  with a show "download_file url dest w
          = (Inl (DownloadException (status_code r)),
             w1\<lparr>requests_log := url # requests_log w\<rparr>)"
    by (simp add: download_file_def requests_get_def)
  from w1 show "files (w1\<lparr>requests_log := url # requests_log w\<rparr>) = files w"
    by simp
next
  assume "files (snd (download_file url dest w)) \<noteq> files w"
  then show "\<exists>r. server w url = Inr r \<and> status_code r = 200
           \<and> fst (download_file url dest w) = Inr ()
           \<and> files (snd (download_file url dest w)) = (files w)(dest \<mapsto> content r)"
    by (auto simp: download_file_def os_makedirs_def requests_get_def write_file_def
        split: sum.splits prod.splits if_splits)
qed

theorem C7_non_200_witness:
  "download_file ''https://example.com/weights.safetensors'' ''/srv/cache/weights.safetensors''
     refusing_world
     = (Inl (DownloadException 404),
        refusing_world
          \<lparr>dirs := {''/srv'', ''/srv/cache''},
           requests_log := [''https://example.com/weights.safetensors'']\<rparr>)
   \<and> files (snd (download_file ''https://example.com/weights.safetensors''
                   ''/srv/cache/weights.safetensors'' refusing_world)) = Map.empty
   \<and> files (snd (download_file ''https://example.com/weights.safetensors''
                   ''/srv/cache/weights.safetensors'' example_world))
       = [''/srv/cache/weights.safetensors'' \<mapsto> ''weights'']"
proof -
  let ?url = "''https://example.com/weights.safetensors''"
  let ?dest = "''/srv/cache/weights.safetensors''"
  let ?r1 = "refusing_world\<lparr>dirs := {''/srv'', ''/srv/cache''}\<rparr>"
  let ?e1 = "example_world\<lparr>dirs := {''/srv'', ''/srv/cache''}\<rparr>"
  have m: "os_makedirs (os_path_dirname ?dest) refusing_world = Inr ?r1"
    unfolding dirname_plain_dest
    by (simp add: os_makedirs_def dir_chain_plain_dest refusing_world_def example_world_def
          insert_commute)
  have s: "server refusing_world ?url = Inr (Response 404 ''not found'')"
    by (simp add: refusing_world_def)
  from C7_non_200_no_file [of ?dest refusing_world ?r1 ?url "Response 404 ''not found''"] m s
  have refused: "download_file ?url ?dest refusing_world
      = (Inl (DownloadException 404), ?r1\<lparr>requests_log := ?url # requests_log refusing_world\<rparr>)"
    by simp
  have me: "os_makedirs (os_path_dirname ?dest) example_world = Inr ?e1"
    unfolding dirname_plain_dest
    by (simp add: os_makedirs_def dir_chain_plain_dest example_world_def insert_commute)
  have se: "server example_world ?url = Inr (Response 200 ''weights'')"
    by (simp add: example_world_def)
  have "?dest \<notin> dirs ?e1" by simp
  moreover have "os_path_dirname ?dest \<in> dirs ?e1"
    unfolding dirname_plain_dest by simp
  ultimately have ok: "download_file ?url ?dest example_world
      = (Inr (), ?e1\<lparr>files := (files example_world)(?dest \<mapsto> ''weights''),
                     requests_log := ?url # requests_log example_world\<rparr>)"
    by (rule download_fresh [OF me se])
  then have changed: "files (snd (download_file ?url ?dest example_world)) \<noteq> files example_world"
    by (simp add: example_world_def fun_eq_iff)
  from C7_non_200_no_file [of ?dest example_world ?e1 ?url "Response 200 ''weights''"] changed
  obtain r where r: "server example_world ?url = Inr r"
    and f: "files (snd (download_file ?url ?dest example_world))
           = (files example_world)(?dest \<mapsto> content r)"
    by blast
  from r se have "r = Response 200 ''weights''" by simp
  moreover have "files example_world = Map.empty" by (simp add: example_world_def)
  ultimately have written: "files (snd (download_file ?url ?dest example_world))
      = [?dest \<mapsto> ''weights'']"
    using f by simp
  from refused written show ?thesis
    by (simp add: refusing_world_def example_world_def)
qed

text \<open>
  C8, as stated, fails. In
  \<open>https://civitai.com/api/download/models/5000?type=Model&format=SafeTensor&parentmodelVersionId=9\<close>
  no query parameter is named \<open>modelVersionId\<close>; the name only occurs inside the name
  \<open>parentmodelVersionId\<close>. The rewrite triggers all the same and replaces the URL by the
  download URL of version 9.
\<close>

theorem C8_substring_triggers_rewrite:
  "''modelVersionId''
     \<notin> set (map (\<lambda>kv. hd (str_split kv ''=''))
              (str_split
                 (str_split
                    ''https://civitai.com/api/download/models/5000?type=Model&format=SafeTensor&parentmodelVersionId=9''
                    ''?'' ! 1)
                 ''&''))
   \<and> civitai_fix_url
        ''https://civitai.com/api/download/models/5000?type=Model&format=SafeTensor&parentmodelVersionId=9''
       = Inr ''https://civitai.com/api/download/models/9?type=Model&format=SafeTensor''"
  by (simp add: civitai_fix_url_def civitai_download_url_def str_split_def list_index_def)

text \<open>
  C8, amended. The rewrite goes by the text of the URL, not by the names of its query
  parameters. A URL that does not contain \<open>modelVersionId\<close> anywhere is left as it is. A
  URL that contains \<open>modelVersionId=\<close> anywhere, also at the end of a longer parameter
  name, is replaced by the canonical download URL of \<open>vid\<close>, the text that follows the
  first occurrence of \<open>modelVersionId=\<close> and runs up to the next \<open>&\<close>, the next
  \<open>modelVersionId=\<close> or the end of the URL. (A URL that contains \<open>modelVersionId\<close> but
  never \<open>modelVersionId=\<close> is not part of this statement.)
\<close>

theorem C8_rewrite_on_substring:
  "(\<not> str_contains url ''modelVersionId'' \<longrightarrow> civitai_fix_url url = Inr url)
   \<and> (str_contains url ''modelVersionId=''
        \<longrightarrow> (\<exists>pre vid rest.
               url = pre @ ''modelVersionId='' @ vid @ rest
               \<and> \<not> str_contains pre ''modelVersionId=''
               \<and> \<not> str_contains vid ''modelVersionId=''
               \<and> CHR ''&'' \<notin> set vid
               \<and> (rest = [] \<or> str_startswith rest ''&''
                    \<or> str_startswith rest ''modelVersionId='')
               \<and> civitai_fix_url url
                   = Inr (''https://civitai.com/api/download/models/'' @ vid
                            @ ''?type=Model&format=SafeTensor'')))"
proof (intro conjI impI)
  assume "\<not> str_contains url ''modelVersionId''"
  then show "civitai_fix_url url = Inr url" by (simp add: civitai_fix_url_def)
next
  let ?sep = "''modelVersionId=''"
  have ne: "?sep \<noteq> []" by simp
  assume "str_contains url ?sep"
  then have "sublist ?sep url" by (simp add: str_contains_sublist)
  from first_occurrence [OF ne this] obtain pre tail
    where url: "url = pre @ ?sep @ tail" and pre: "\<not> sublist ?sep pre"
    by (elim exE conjE)
  from value_upto_terminator [OF ne, of tail "CHR ''&''"] obtain vid rest
    where tail: "tail = vid @ rest" and amp: "CHR ''&'' \<notin> set vid"
      and vid: "\<not> sublist ?sep vid"
      and rest: "rest = [] \<or> prefix ''&'' rest \<or> prefix ?sep rest"
    by (elim exE conjE)
  from pre have 1: "\<not> str_contains pre ?sep" by (simp add: str_contains_sublist)
  from vid have 2: "\<not> str_contains vid ?sep" by (simp add: str_contains_sublist)
  from rest have 4: "rest = [] \<or> str_startswith rest ''&'' \<or> str_startswith rest ?sep"
    unfolding str_startswith_prefix .
  have 0: "url = pre @ ?sep @ vid @ rest" by (simp only: url tail)
  have "civitai_fix_url (pre @ ?sep @ vid @ rest) = Inr (civitai_download_url vid)"
    by (rule civitai_fix_url_cut [OF 1 2 amp 4])
  then have "civitai_fix_url url = Inr (civitai_download_url vid)"
    by (simp only: 0 [symmetric])
  then have 5: "civitai_fix_url url
      = Inr (''https://civitai.com/api/download/models/'' @ vid
               @ ''?type=Model&format=SafeTensor'')"
    by (simp only: civitai_download_url_def)
  from 0 1 2 amp 4 5
  show "\<exists>pre vid rest.
               url = pre @ ''modelVersionId='' @ vid @ rest
               \<and> \<not> str_contains pre ''modelVersionId=''
               \<and> \<not> str_contains vid ''modelVersionId=''
               \<and> CHR ''&'' \<notin> set vid
               \<and> (rest = [] \<or> str_startswith rest ''&''
                    \<or> str_startswith rest ''modelVersionId='')
               \<and> civitai_fix_url url
                   = Inr (''https://civitai.com/api/download/models/'' @ vid
                            @ ''?type=Model&format=SafeTensor'')"
    by (intro exI conjI)
qed

theorem C8_rewrite_on_substring_witness:
  "civitai_fix_url ''https://civitai.com/api/download/models/5000?type=Model&format=SafeTensor''
     = Inr ''https://civitai.com/api/download/models/5000?type=Model&format=SafeTensor''
   \<and> (\<exists>vid. civitai_fix_url ''https://civitai.com/models/111?parentmodelVersionId=9''
               = Inr (''https://civitai.com/api/download/models/'' @ vid
                        @ ''?type=Model&format=SafeTensor''))"
proof -
  let ?good = "''https://civitai.com/api/download/models/5000?type=Model&format=SafeTensor''"
  let ?u = "''https://civitai.com/models/111?parentmodelVersionId=9''"
  have g: "\<not> str_contains ?good ''modelVersionId''" by simp
  have c: "str_contains ?u ''modelVersionId=''" by simp
  note unchanged = C8_rewrite_on_substring [of ?good, THEN conjunct1, THEN mp, OF g]
  from C8_rewrite_on_substring [of ?u, THEN conjunct2, THEN mp, OF c]
  have rewritten: "\<exists>vid. civitai_fix_url ?u
      = Inr (''https://civitai.com/api/download/models/'' @ vid
               @ ''?type=Model&format=SafeTensor'')"
    by (elim exE conjE) (rule exI)
  from unchanged rewritten show ?thesis by (rule conjI)
qed

text \<open>
  C9. With a blend strength of exactly zero, \<open>load_lora_model_only_from_url\<close> returns the
  base model as it is; the node's fields and the world (filesystem, requests issued) are
  the ones it started with, whatever the URL.
\<close>

theorem C9_zero_strength_short_circuit:
  "load_lora_model_only_from_url md5 hub load_torch_file load_lora_for_models
     self model url 0 w = (Inr model, self, w)"
  by (simp add: load_lora_model_only_from_url_def)

text \<open>
  C10. There is a non-empty URL that starts with \<open>http\<close>, contains the repository host,
  ends in \<open>safetensors\<close> and has fewer than three parts between slashes once the scheme
  is removed, on which \<open>get_lora_from_url\<close> ends with \<open>IndexError\<close>, not with
  \<open>ValueError\<close>: \<open>https://huggingface.co/file.safetensors\<close>.
\<close>

theorem C10_hf_short_url_index_error:
  "\<exists>url. url \<noteq> [] \<and> str_startswith url ''http'' \<and> str_contains url ''huggingface.co''
     \<and> str_endswith (str_lower url) ''safetensors''
     \<and> length (str_split (str_replace (str_replace url ''http://'' []) ''https://'' []) ''/'') < 3
     \<and> (\<forall>md5 hub w. get_lora_from_url md5 hub url w = (Inl IndexError, w))"
proof (intro exI conjI allI)
  let ?u = "''https://huggingface.co/file.safetensors''"
  show "?u \<noteq> []" by simp
  show "str_startswith ?u ''http''" by simp
  show "str_contains ?u ''huggingface.co''" by simp
  show "str_endswith (str_lower ?u) ''safetensors''"
    by (simp add: lower_hf_short str_endswith_def)
  show "length (str_split (str_replace (str_replace ?u ''http://'' []) ''https://'' []) ''/'') < 3"
    by (simp add: str_split_def)
  show "get_lora_from_url md5 hub ?u w = (Inl IndexError, w)" for md5 hub w
    by (simp add: get_lora_from_url_def strip_hf_short hf_parse_short)
qed

end
